theory Spec2Isabelle
  imports Complex_Main "HOL-Library.AList"
begin

section \<open>Path parsing (parse_svg_path_to_coords)\<close>

text \<open>
  Path strings are lists of characters with code points below 256. Inside the parser a
  float is the rational number it denotes: a literal denotes its decimal value and
  addition is exact. Rounding to a double and the values beyond the range of the doubles
  come in where the parsed points are handed on, in \<open>extract_province\<close>. The only
  exception the parser can raise is IndexError, from indexing the list of numbers of a
  command.
\<close>

datatype py_error = IndexError | ZeroDivisionError | ValueError | OverflowError

type_synonym point = "rat \<times> rat"

definition py_isspace :: "char \<Rightarrow> bool" where
  \<comment> \<open>the characters matched by \<^verbatim>\<open>\s\<close> and removed by \<^verbatim>\<open>str.strip()\<close>\<close>
  "py_isspace c = (c \<in> set [CHR 0x09, CHR 0x0A, CHR 0x0B, CHR 0x0C, CHR 0x0D,
      CHR 0x1C, CHR 0x1D, CHR 0x1E, CHR 0x1F, CHR 0x20, CHR 0x85, CHR 0xA0])"

definition is_digit :: "char \<Rightarrow> bool" where
  \<comment> \<open>the characters matched by \<^verbatim>\<open>\d\<close>\<close>
  "is_digit c = (c \<in> set ''0123456789'')"

definition is_cmd_letter :: "char \<Rightarrow> bool" where
  \<comment> \<open>the class \<^verbatim>\<open>[MLZmlz]\<close>\<close>
  "is_cmd_letter c = (c \<in> set ''MLZmlz'')"

definition is_arg_char :: "char \<Rightarrow> bool" where
  \<comment> \<open>the class \<^verbatim>\<open>[\d\s,.-]\<close>\<close>
  "is_arg_char c = (is_digit c \<or> py_isspace c \<or> c = CHR '','' \<or> c = CHR ''.'' \<or> c = CHR ''-'')"

definition strip :: "string \<Rightarrow> string" where
  "strip s = rev (dropWhile py_isspace (rev (dropWhile py_isspace s)))"

text \<open>\<^verbatim>\<open>re.sub(r'\s+', ' ', s)\<close>: every maximal run of whitespace becomes one space.
  The flag says that the previous character belonged to a run already replaced.\<close>

fun sub_ws :: "bool \<Rightarrow> string \<Rightarrow> string" where
  "sub_ws in_run [] = []"
| "sub_ws in_run (c # cs) =
     (if py_isspace c then (if in_run then sub_ws True cs else CHR '' '' # sub_ws True cs)
      else c # sub_ws False cs)"

text \<open>\<^verbatim>\<open>re.findall(r'([MLZmlz])\s*([\d\s,.-]+)?', path_data)\<close>: the scan looks for the next
  command letter, skips the whitespace after it, and takes the longest run of argument
  characters as the second group (the empty string when the group does not match).\<close>

function find_commands :: "string \<Rightarrow> (char \<times> string) list" where
  "find_commands [] = []"
| "find_commands (c # cs) =
     (if is_cmd_letter c then
        (let rest = dropWhile py_isspace cs
         in (c, takeWhile is_arg_char rest) # find_commands (dropWhile is_arg_char rest))
      else find_commands cs)"
  by pat_completeness auto
termination
proof (relation "measure length")
  show "wf (measure (length :: string \<Rightarrow> nat))" by simp
next
  fix c :: char and cs rest :: string
  assume "rest = dropWhile py_isspace cs"
  then have "length (dropWhile is_arg_char rest) \<le> length cs"
    using length_dropWhile_le [of is_arg_char rest] length_dropWhile_le [of py_isspace cs]
    by simp
  then show "(dropWhile is_arg_char rest, c # cs) \<in> measure length" by simp
next
  fix c :: char and cs :: string
  show "(cs, c # cs) \<in> measure length" by simp
qed

text \<open>One match of \<^verbatim>\<open>\d+\.?\d*\<close> at the head of a string that starts with a digit:
  the matched text and the rest of the string.\<close>

definition number_text :: "string \<Rightarrow> string" where
  "number_text s =
     (case dropWhile is_digit s of
        [] \<Rightarrow> takeWhile is_digit s
      | c # r2 \<Rightarrow>
          (if c = CHR ''.'' then takeWhile is_digit s @ CHR ''.'' # takeWhile is_digit r2
           else takeWhile is_digit s))"

definition number_rest :: "string \<Rightarrow> string" where
  "number_rest s =
     (case dropWhile is_digit s of
        [] \<Rightarrow> []
      | c # r2 \<Rightarrow> (if c = CHR ''.'' then dropWhile is_digit r2 else c # r2))"

lemma number_rest_length: "length (number_rest s) \<le> length s"
proof (cases "dropWhile is_digit s")
  case Nil
  show ?thesis unfolding number_rest_def Nil by simp
next
  case (Cons c r2)
  have "length (dropWhile is_digit s) \<le> length s" by (rule length_dropWhile_le)
  moreover have "length (dropWhile is_digit r2) \<le> length r2" by (rule length_dropWhile_le)
  ultimately show ?thesis unfolding number_rest_def Cons by simp
qed

lemma number_rest_digit: "is_digit c \<Longrightarrow> number_rest (c # cs) = number_rest cs"
  by (simp add: number_rest_def)

text \<open>\<^verbatim>\<open>re.findall(r'-?\d+\.?\d*', args)\<close>: a match starts at a digit, or at a minus sign
  that a digit follows.\<close>

function find_numbers :: "string \<Rightarrow> string list" where
  "find_numbers [] = []"
| "find_numbers (c # cs) =
     (if c = CHR ''-'' \<and> cs \<noteq> [] \<and> is_digit (hd cs) then
        (CHR ''-'' # number_text cs) # find_numbers (number_rest cs)
      else if is_digit c then
        number_text (c # cs) # find_numbers (number_rest (c # cs))
      else find_numbers cs)"
  by pat_completeness auto
termination
proof (relation "measure length")
  show "wf (measure (length :: string \<Rightarrow> nat))" by simp
next
  fix c :: char and cs :: string
  show "(number_rest cs, c # cs) \<in> measure length"
    using number_rest_length [of cs] by simp
next
  fix c :: char and cs :: string
  assume "is_digit c"
  then show "(number_rest (c # cs), c # cs) \<in> measure length"
    using number_rest_length [of cs] by (simp add: number_rest_digit)
next
  fix c :: char and cs :: string
  show "(cs, c # cs) \<in> measure length" by simp
qed

text \<open>\<^verbatim>\<open>float(x)\<close> for a match \<open>x\<close> of the number pattern (optional sign, digits, optional
  point, digits): the decimal value. Such a literal is always accepted by \<^verbatim>\<open>float\<close>, so
  there is no error branch.\<close>

definition digit_val :: "char \<Rightarrow> nat" where
  "digit_val c = of_char c - 48"

definition digits_val :: "string \<Rightarrow> nat" where
  "digits_val ds = foldl (\<lambda>a c. 10 * a + digit_val c) 0 ds"

definition unsigned_val :: "string \<Rightarrow> rat" where
  "unsigned_val s =
     (let ip = takeWhile is_digit s; fp = takeWhile is_digit (drop 1 (dropWhile is_digit s))
      in of_nat (digits_val ip) + of_nat (digits_val fp) / 10 ^ length fp)"

definition py_float :: "string \<Rightarrow> rat" where
  "py_float s =
     (case s of
        [] \<Rightarrow> 0
      | c # r \<Rightarrow> (if c = CHR ''-'' then - unsigned_val r else unsigned_val s))"

text \<open>The parser's local variables: the cursor and the list of points so far.\<close>

record parser_state =
  current_x :: rat
  current_y :: rat
  acc_coords :: "point list"

definition move_abs :: "rat \<Rightarrow> rat \<Rightarrow> parser_state \<Rightarrow> parser_state" where
  \<comment> \<open>\<^verbatim>\<open>current_x, current_y = a, b; coords.append((current_x, current_y))\<close>\<close>
  "move_abs a b st = st\<lparr>current_x := a, current_y := b, acc_coords := acc_coords st @ [(a, b)]\<rparr>"

definition move_rel :: "rat \<Rightarrow> rat \<Rightarrow> parser_state \<Rightarrow> parser_state" where
  \<comment> \<open>\<^verbatim>\<open>current_x += a; current_y += b; coords.append((current_x, current_y))\<close>\<close>
  "move_rel a b st =
     st\<lparr>current_x := current_x st + a, current_y := current_y st + b,
        acc_coords := acc_coords st @ [(current_x st + a, current_y st + b)]\<rparr>"

text \<open>The loops \<^verbatim>\<open>for i in range(k, len(numbers), 2)\<close> over the numbers from index \<open>k\<close> on:
  each round reads \<^verbatim>\<open>numbers[i]\<close> and \<^verbatim>\<open>numbers[i+1]\<close>, and the second read raises
  IndexError when one number is left.\<close>

fun line_abs :: "rat list \<Rightarrow> parser_state \<Rightarrow> py_error + parser_state" where
  "line_abs [] st = Inr st"
| "line_abs [a] st = Inl IndexError"
| "line_abs (a # b # ns) st = line_abs ns (move_abs a b st)"

fun line_rel :: "rat list \<Rightarrow> parser_state \<Rightarrow> py_error + parser_state" where
  "line_rel [] st = Inr st"
| "line_rel [a] st = Inl IndexError"
| "line_rel (a # b # ns) st = line_rel ns (move_rel a b st)"

text \<open>The body of \<^verbatim>\<open>for cmd, args in commands\<close>. A command without arguments does
  nothing, whatever its letter. \<open>M\<close> and \<open>m\<close> read \<^verbatim>\<open>numbers[0]\<close> and \<^verbatim>\<open>numbers[1]\<close>
  before their loop.\<close>

definition run_command :: "char \<times> string \<Rightarrow> parser_state \<Rightarrow> py_error + parser_state" where
  "run_command ca st =
     (let cmd = fst ca; args = snd ca in
      if args = [] then Inr st
      else
        (let numbers = map py_float (find_numbers args) in
         if cmd = CHR ''M'' then
           (case numbers of
              a # b # ns \<Rightarrow> line_abs ns (move_abs a b st)
            | _ \<Rightarrow> Inl IndexError)
         else if cmd = CHR ''m'' then
           (case numbers of
              a # b # ns \<Rightarrow> line_rel ns (move_rel a b st)
            | _ \<Rightarrow> Inl IndexError)
         else if cmd = CHR ''L'' then line_abs numbers st
         else if cmd = CHR ''l'' then line_rel numbers st
         else Inr st))"

fun run_commands :: "(char \<times> string) list \<Rightarrow> parser_state \<Rightarrow> py_error + parser_state" where
  "run_commands [] st = Inr st"
| "run_commands (ca # cas) st =
     (case run_command ca st of
        Inl e \<Rightarrow> Inl e
      | Inr st' \<Rightarrow> run_commands cas st')"

definition parse_svg_path_to_coords :: "string \<Rightarrow> py_error + point list" where
  "parse_svg_path_to_coords path_data =
     (let path_data' = sub_ws False (strip path_data);
          commands = find_commands path_data'
      in case run_commands commands \<lparr>current_x = 0, current_y = 0, acc_coords = []\<rparr> of
           Inl e \<Rightarrow> Inl e
         | Inr st \<Rightarrow> Inr (acc_coords st))"

section \<open>Floats\<close>

text \<open>
  From simplification on, a float is either a finite value, given by the rational number
  it denotes, or one of the three special values. The special values matter because
  \<^verbatim>\<open>round\<close> raises on them. Results of float arithmetic are rounded to the nearest double;
  that rounding is the field \<open>nearest_double\<close> of the environment below, so nothing is
  assumed about it.
\<close>

datatype pyfloat = Finite rat | PosInf | NegInf | NaN

type_synonym fpoint = "pyfloat \<times> pyfloat"

definition float_max_bound :: rat where
  \<comment> \<open>the least magnitude that rounds beyond the largest double\<close>
  "float_max_bound = 2 ^ 1024 - 2 ^ 970"

definition round_half_even :: "rat \<Rightarrow> int" where
  \<comment> \<open>to the nearest integer, a tie to the even one\<close>
  "round_half_even x =
     (let f = \<lfloor>x\<rfloor>; d = x - of_int f
      in if d < 1 / 2 then f else if 1 / 2 < d then f + 1 else if even f then f else f + 1)"

definition py_round :: "pyfloat \<Rightarrow> py_error + int" where
  \<comment> \<open>\<^verbatim>\<open>round(x)\<close> with one argument: OverflowError on an infinity, ValueError on NaN\<close>
  "py_round x =
     (case x of
        Finite v \<Rightarrow> Inr (round_half_even v)
      | PosInf \<Rightarrow> Inl OverflowError
      | NegInf \<Rightarrow> Inl OverflowError
      | NaN \<Rightarrow> Inl ValueError)"

definition round_point :: "fpoint \<Rightarrow> py_error + int \<times> int" where
  \<comment> \<open>\<^verbatim>\<open>[round(x), round(y)]\<close>, \<open>x\<close> first\<close>
  "round_point p =
     (case py_round (fst p) of
        Inl e \<Rightarrow> Inl e
      | Inr a \<Rightarrow> (case py_round (snd p) of Inl e \<Rightarrow> Inl e | Inr b \<Rightarrow> Inr (a, b)))"

fun round_points :: "fpoint list \<Rightarrow> py_error + (int \<times> int) list" where
  \<comment> \<open>\<^verbatim>\<open>[[round(x), round(y)] for x, y in ...]\<close>: the first exception ends the comprehension\<close>
  "round_points [] = Inr []"
| "round_points (p # ps) =
     (case round_point p of
        Inl e \<Rightarrow> Inl e
      | Inr q \<Rightarrow> (case round_points ps of Inl e \<Rightarrow> Inl e | Inr qs \<Rightarrow> Inr (q # qs)))"






section \<open>The environment: the geometry library and float rounding\<close>

text \<open>
  Polygons are built and queried through a geometry library that is not part of the
  repository. The operations the source calls are the fields of a record; every one can
  raise, which is the value \<open>None\<close>. The last field is the rounding of an exact result to
  the nearest double.
\<close>

record 'g geometry =
  Polygon :: "fpoint list \<Rightarrow> 'g option"
  simplify :: "'g \<Rightarrow> pyfloat \<Rightarrow> 'g option"
  exterior_coords :: "'g \<Rightarrow> fpoint list option"
  poly_centroid :: "'g \<Rightarrow> fpoint option"
  is_valid :: "'g \<Rightarrow> bool option"
  buffer_zero :: "'g \<Rightarrow> 'g option"
  touches :: "'g \<Rightarrow> 'g \<Rightarrow> bool option"
  intersects :: "'g \<Rightarrow> 'g \<Rightarrow> bool option"
  intersection_length :: "'g \<Rightarrow> 'g \<Rightarrow> pyfloat option"
  nearest_double :: "rat \<Rightarrow> rat"

text \<open>
  \<open>simplify\<close> is \<^verbatim>\<open>poly.simplify(tolerance, preserve_topology=True)\<close>, \<open>exterior_coords\<close> is
  \<^verbatim>\<open>simplified.exterior.coords\<close> (the closing coordinate included), \<open>poly_centroid\<close> is
  \<^verbatim>\<open>poly.centroid\<close> read through \<^verbatim>\<open>.x\<close> and \<^verbatim>\<open>.y\<close>, \<open>buffer_zero\<close> is \<^verbatim>\<open>poly.buffer(0)\<close> and
  \<open>intersection_length\<close> is \<^verbatim>\<open>poly1.intersection(poly2).length\<close>.
\<close>

definition times_half :: "'g geometry \<Rightarrow> pyfloat \<Rightarrow> pyfloat" where
  \<comment> \<open>\<^verbatim>\<open>tolerance * 0.5\<close>\<close>
  "times_half G t =
     (case t of
        Finite v \<Rightarrow> Finite (nearest_double G (v * (1 / 2)))
      | PosInf \<Rightarrow> PosInf
      | NegInf \<Rightarrow> NegInf
      | NaN \<Rightarrow> NaN)"

definition int_true_div :: "'g geometry \<Rightarrow> int \<Rightarrow> nat \<Rightarrow> py_error + pyfloat" where
  \<comment> \<open>\<^verbatim>\<open>a / n\<close> for an integer \<open>a\<close> and a length \<open>n\<close>: the nearest double, OverflowError when
      the quotient is too large for a float\<close>
  "int_true_div G a n =
     (if n = 0 then Inl ZeroDivisionError
      else if float_max_bound \<le> \<bar>of_int a / of_nat n\<bar> then Inl OverflowError
      else Inr (Finite (nearest_double G (of_int a / of_nat n))))"

section \<open>Simplification (simplify_coords)\<close>

text \<open>
  The \<^verbatim>\<open>try\<close> block up to the \<^verbatim>\<open>return\<close>. The first component lists the tolerances
  \<open>simplify\<close> was called with, in order; the second is the exterior that the \<^verbatim>\<open>return\<close>
  statement reads, or \<open>None\<close> when a call raised.
\<close>

definition simplify_attempt ::
  "'g geometry \<Rightarrow> fpoint list \<Rightarrow> pyfloat \<Rightarrow> pyfloat list \<times> fpoint list option" where
  "simplify_attempt G coords tolerance =
     (case Polygon G coords of
        None \<Rightarrow> ([], None)
      | Some poly \<Rightarrow>
          (case simplify G poly tolerance of
             None \<Rightarrow> ([tolerance], None)
           | Some simplified \<Rightarrow>
               (case exterior_coords G simplified of
                  None \<Rightarrow> ([tolerance], None)
                | Some ext \<Rightarrow>
                    if length ext < 6 then
                      (case simplify G poly (times_half G tolerance) of
                         None \<Rightarrow> ([tolerance, times_half G tolerance], None)
                       | Some simplified' \<Rightarrow>
                           ([tolerance, times_half G tolerance], exterior_coords G simplified'))
                    else ([tolerance], Some ext))))"

text \<open>The rounding of the \<^verbatim>\<open>return\<close> statement is inside the \<^verbatim>\<open>try\<close> block, so an exception
  of \<^verbatim>\<open>round\<close> there leads to the handler. The roundings of the guard and of the handler
  are not protected: their exception leaves the function.\<close>

definition simplify_coords ::
  "'g geometry \<Rightarrow> fpoint list \<Rightarrow> pyfloat \<Rightarrow> py_error + (int \<times> int) list" where
  "simplify_coords G coords tolerance =
     (if length coords < 4 then round_points coords
      else
        (case snd (simplify_attempt G coords tolerance) of
           Some ext \<Rightarrow>
             (case round_points (butlast ext) of
                Inr r \<Rightarrow> Inr r
              | Inl e \<Rightarrow> round_points coords)
         | None \<Rightarrow> round_points coords))"

definition simplify_calls :: "'g geometry \<Rightarrow> fpoint list \<Rightarrow> pyfloat \<Rightarrow> pyfloat list" where
  \<comment> \<open>the tolerances of the calls of \<open>simplify\<close> that one call of \<open>simplify_coords\<close> makes\<close>
  "simplify_calls G coords tolerance =
     (if length coords < 4 then [] else fst (simplify_attempt G coords tolerance))"

text \<open>What simplification of the polygon of \<open>coords\<close> at tolerance \<open>t\<close> produces: the
  exterior coordinate sequence of the simplified polygon, \<open>None\<close> when a call raises.\<close>

definition exterior_at :: "'g geometry \<Rightarrow> fpoint list \<Rightarrow> pyfloat \<Rightarrow> fpoint list option" where
  "exterior_at G coords t =
     (case Polygon G coords of
        None \<Rightarrow> None
      | Some poly \<Rightarrow>
          (case simplify G poly t of
             None \<Rightarrow> None
           | Some simplified \<Rightarrow> exterior_coords G simplified))"

section \<open>Centroid (calculate_centroid)\<close>

definition to_points :: "(int \<times> int) list \<Rightarrow> fpoint list" where
  "to_points cs = map (\<lambda>c. (Finite (of_int (fst c)), Finite (of_int (snd c)))) cs"

text \<open>The \<^verbatim>\<open>except\<close> branch: both quotients are computed before the first rounding.\<close>

definition mean_point :: "'g geometry \<Rightarrow> (int \<times> int) list \<Rightarrow> py_error + int \<times> int" where
  "mean_point G coords =
     (case int_true_div G (sum_list (map fst coords)) (length coords) of
        Inl e \<Rightarrow> Inl e
      | Inr x_avg \<Rightarrow>
          (case int_true_div G (sum_list (map snd coords)) (length coords) of
             Inl e \<Rightarrow> Inl e
           | Inr y_avg \<Rightarrow> round_point (x_avg, y_avg)))"

definition area_centroid :: "'g geometry \<Rightarrow> (int \<times> int) list \<Rightarrow> (int \<times> int) option" where
  \<comment> \<open>the \<^verbatim>\<open>try\<close> branch, its rounding included; \<open>None\<close> when a step raises\<close>
  "area_centroid G coords =
     (case Polygon G (to_points coords) of
        None \<Rightarrow> None
      | Some poly \<Rightarrow>
          (case poly_centroid G poly of
             None \<Rightarrow> None
           | Some c \<Rightarrow> (case round_point c of Inl e \<Rightarrow> None | Inr r \<Rightarrow> Some r)))"

definition calculate_centroid :: "'g geometry \<Rightarrow> (int \<times> int) list \<Rightarrow> py_error + int \<times> int" where
  "calculate_centroid G coords =
     (case area_centroid G coords of
        Some r \<Rightarrow> Inr r
      | None \<Rightarrow> mean_point G coords)"

section \<open>Provinces\<close>

record extracted =
  original_title :: string
  original_id :: string
  coordinates :: "(int \<times> int) list"
  centroid :: "int \<times> int"
  isCoastal :: bool

text \<open>A province after identifier assignment. An identifier is a one-character string,
  modelled by its code point in \<open>assign_province_ids\<close>; neighbour detection works for any
  type of identifiers.\<close>

record 'i province = extracted +
  ident :: 'i

text \<open>One round of the loop of \<open>extract_provinces_from_svg\<close>: the path data of one element
  (\<open>None\<close> when the attribute is missing). \<open>None\<close> is a skipped province: no path data,
  fewer than three points, or an exception caught by the handler of the round.\<close>

definition float_of_rat :: "'g geometry \<Rightarrow> rat \<Rightarrow> pyfloat" where
  \<comment> \<open>a parsed value as a float: the nearest double, an infinity beyond their range\<close>
  "float_of_rat G x =
     (if float_max_bound \<le> x then PosInf else if x \<le> - float_max_bound then NegInf
      else Finite (nearest_double G x))"

definition extract_province ::
  "'g geometry \<Rightarrow> pyfloat \<Rightarrow> string \<Rightarrow> string \<Rightarrow> string option \<Rightarrow> extracted option" where
  "extract_province G tolerance title province_id d =
     (case d of
        None \<Rightarrow> None
      | Some path_data \<Rightarrow>
          if path_data = [] then None
          else
            (case parse_svg_path_to_coords path_data of
               Inl e \<Rightarrow> None
             | Inr raw_coords \<Rightarrow>
                 if length raw_coords < 3 then None
                 else
                   (case simplify_coords G
                           (map (\<lambda>p. (float_of_rat G (fst p), float_of_rat G (snd p))) raw_coords)
                           tolerance of
                      Inl e \<Rightarrow> None
                    | Inr coords \<Rightarrow>
                        (case calculate_centroid G coords of
                           Inl e \<Rightarrow> None
                         | Inr c \<Rightarrow>
                             Some \<lparr>original_title = title, original_id = province_id,
                                   coordinates = coords, centroid = c, isCoastal = False\<rparr>))))"

section \<open>Identifier assignment (assign_province_ids)\<close>

definition py_chr :: "nat \<Rightarrow> py_error + nat" where
  \<comment> \<open>\<^verbatim>\<open>chr(n)\<close>, the character as its code point; it raises above the last code point\<close>
  "py_chr n = (if n \<le> 0x10FFFF then Inr n else Inl ValueError)"

definition with_ident :: "extracted \<Rightarrow> 'i \<Rightarrow> 'i province" where
  \<comment> \<open>\<^verbatim>\<open>province['id'] = c\<close>\<close>
  "with_ident p c =
     \<lparr>original_title = original_title p, original_id = original_id p,
      coordinates = coordinates p, centroid = centroid p, isCoastal = isCoastal p, ident = c\<rparr>"

text \<open>The loop \<^verbatim>\<open>for idx, province in enumerate(provinces)\<close>, from index \<open>idx\<close> on.\<close>

fun assign_from :: "nat \<Rightarrow> extracted list \<Rightarrow> py_error + nat province list" where
  "assign_from idx [] = Inr []"
| "assign_from idx (p # ps) =
     (case py_chr (65 + idx) of
        Inl e \<Rightarrow> Inl e
      | Inr c \<Rightarrow>
          (case assign_from (Suc idx) ps of
             Inl e \<Rightarrow> Inl e
           | Inr r \<Rightarrow> Inr (with_ident p c # r)))"

definition assign_province_ids :: "extracted list \<Rightarrow> py_error + nat province list" where
  "assign_province_ids provinces = assign_from 0 provinces"

definition is_upper_letter :: "nat \<Rightarrow> bool" where
  "is_upper_letter c = (65 \<le> c \<and> c \<le> 90)"

definition is_lower_letter :: "nat \<Rightarrow> bool" where
  "is_lower_letter c = (97 \<le> c \<and> c \<le> 122)"

definition is_ascii :: "nat \<Rightarrow> bool" where
  "is_ascii c = (c < 128)"

section \<open>Neighbour detection (detect_neighbors)\<close>

text \<open>
  The dictionary \<open>polygons\<close> is an association list in insertion order: storing under a
  key that is present replaces the value in place, as \<open>AList.update\<close> does. A province
  whose polygon cannot be built is left out.
\<close>

fun build_polygons :: "'g geometry \<Rightarrow> 'i province list \<Rightarrow> ('i \<times> 'g) list \<Rightarrow> ('i \<times> 'g) list" where
  "build_polygons G [] polygons = polygons"
| "build_polygons G (province # rest) polygons =
     (case Polygon G (to_points (coordinates province)) of
        None \<Rightarrow> build_polygons G rest polygons
      | Some poly \<Rightarrow>
          (case is_valid G poly of
             None \<Rightarrow> build_polygons G rest polygons
           | Some v \<Rightarrow>
               if v then build_polygons G rest (AList.update (ident province) poly polygons)
               else
                 (case buffer_zero G poly of
                    None \<Rightarrow> build_polygons G rest polygons
                  | Some poly' \<Rightarrow>
                      build_polygons G rest (AList.update (ident province) poly' polygons))))"

definition exceeds_one :: "pyfloat \<Rightarrow> bool" where
  \<comment> \<open>\<^verbatim>\<open>x > 1\<close> for a float\<close>
  "exceeds_one x = (case x of Finite v \<Rightarrow> 1 < v | PosInf \<Rightarrow> True | NegInf \<Rightarrow> False | NaN \<Rightarrow> False)"

text \<open>The test of the inner \<^verbatim>\<open>try\<close> block: \<^verbatim>\<open>or\<close> does not evaluate \<open>intersects\<close> when
  \<open>touches\<close> holds, and an exception anywhere means that the pair is not registered.\<close>

definition share_border :: "'g geometry \<Rightarrow> 'g \<Rightarrow> 'g \<Rightarrow> bool" where
  "share_border G poly1 poly2 =
     (case touches G poly1 poly2 of
        None \<Rightarrow> False
      | Some t \<Rightarrow>
          (case (if t then Some True else intersects G poly1 poly2) of
             None \<Rightarrow> False
           | Some c \<Rightarrow>
               if c then
                 (case intersection_length G poly1 poly2 of
                    None \<Rightarrow> False
                  | Some len \<Rightarrow> exceeds_one len)
               else False))"

text \<open>The two appends. A missing key would raise KeyError inside the \<^verbatim>\<open>try\<close> block, which
  abandons the pair at that point.\<close>

definition register_pair :: "'i \<Rightarrow> 'i \<Rightarrow> ('i \<rightharpoonup> 'i list) \<Rightarrow> ('i \<rightharpoonup> 'i list)" where
  "register_pair id1 id2 neighbors =
     (case neighbors id1 of
        None \<Rightarrow> neighbors
      | Some l1 \<Rightarrow>
          (let neighbors' = neighbors(id1 \<mapsto> l1 @ [id2])
           in case neighbors' id2 of
                None \<Rightarrow> neighbors'
              | Some l2 \<Rightarrow> neighbors'(id2 \<mapsto> l2 @ [id1])))"

text \<open>The loops run over the items of \<open>polygons\<close>: \<^verbatim>\<open>polygons[id1]\<close> for a key of the
  dictionary is the value stored with it. The inner loop takes the keys after \<open>id1\<close>.\<close>

fun inner_loop ::
  "'g geometry \<Rightarrow> 'i \<Rightarrow> 'g \<Rightarrow> ('i \<times> 'g) list \<Rightarrow> ('i \<rightharpoonup> 'i list) \<Rightarrow> ('i \<rightharpoonup> 'i list)" where
  "inner_loop G id1 poly1 [] neighbors = neighbors"
| "inner_loop G id1 poly1 (ip2 # rest) neighbors =
     inner_loop G id1 poly1 rest
       (if share_border G poly1 (snd ip2) then register_pair id1 (fst ip2) neighbors
        else neighbors)"

fun outer_loop ::
  "'g geometry \<Rightarrow> ('i \<times> 'g) list \<Rightarrow> ('i \<rightharpoonup> 'i list) \<Rightarrow> ('i \<rightharpoonup> 'i list)" where
  "outer_loop G [] neighbors = neighbors"
| "outer_loop G (ip1 # rest) neighbors =
     outer_loop G rest (inner_loop G (fst ip1) (snd ip1) rest neighbors)"

definition detect_neighbors :: "'g geometry \<Rightarrow> 'i province list \<Rightarrow> ('i \<rightharpoonup> 'i list)" where
  "detect_neighbors G provinces =
     outer_loop G (build_polygons G provinces [])
       (map_of (map (\<lambda>p. (ident p, [])) provinces))"

definition neighbors_of :: "('i \<rightharpoonup> 'i list) \<Rightarrow> 'i \<Rightarrow> 'i list" where
  \<comment> \<open>\<^verbatim>\<open>neighbors.get(id, [])\<close>, as \<open>create_template_json\<close> reads the result\<close>
  "neighbors_of neighbors i = (case neighbors i of None \<Rightarrow> [] | Some l \<Rightarrow> l)"

text \<open>The pairs of identifiers for which the loops run the two appends, in the order of
  the loops: each key with the later keys whose polygons pass the test.\<close>

fun registered_pairs :: "'g geometry \<Rightarrow> ('i \<times> 'g) list \<Rightarrow> ('i \<times> 'i) list" where
  "registered_pairs G [] = []"
| "registered_pairs G (ip1 # rest) =
     map (\<lambda>ip2. (fst ip1, fst ip2)) (filter (\<lambda>ip2. share_border G (snd ip1) (snd ip2)) rest)
     @ registered_pairs G rest"

section \<open>Engines for concrete inputs\<close>

text \<open>In the engines below the rounding to the nearest double is the identity: they are
  used on values that are doubles, where nothing is rounded.\<close>

definition fin_points :: "point list \<Rightarrow> fpoint list" where
  "fin_points ps = map (\<lambda>p. (Finite (fst p), Finite (snd p))) ps"

text \<open>An engine on which every operation raises. The library's constructor raises on
  fewer than three coordinates, and there this engine agrees with it.\<close>

definition failing_engine :: "unit geometry" where
  "failing_engine =
     \<lparr>Polygon = (\<lambda>cs. None), simplify = (\<lambda>p t. None), exterior_coords = (\<lambda>p. None),
      poly_centroid = (\<lambda>p. None), is_valid = (\<lambda>p. None), buffer_zero = (\<lambda>p. None),
      touches = (\<lambda>p q. None), intersects = (\<lambda>p q. None),
      intersection_length = (\<lambda>p q. None), nearest_double = (\<lambda>x. x)\<rparr>"

text \<open>An engine whose polygons are closed coordinate lists: the constructor closes the
  ring when its ends differ and raises when the closed ring has fewer than four
  coordinates, and simplification keeps every vertex, which is what a point-decimation
  routine returns when every vertex deviates from its chord by more than the tolerance.\<close>

definition close_ring :: "'a list \<Rightarrow> 'a list" where
  "close_ring cs = (if cs \<noteq> [] \<and> hd cs = last cs then cs else cs @ take 1 cs)"

definition ring_engine :: "(fpoint list) geometry" where
  "ring_engine =
     \<lparr>Polygon = (\<lambda>cs. if length (close_ring cs) < 4 then None else Some (close_ring cs)),
      simplify = (\<lambda>p t. Some p), exterior_coords = (\<lambda>p. Some p),
      poly_centroid = (\<lambda>p. None), is_valid = (\<lambda>p. None), buffer_zero = (\<lambda>p. None),
      touches = (\<lambda>p q. None), intersects = (\<lambda>p q. None),
      intersection_length = (\<lambda>p q. None), nearest_double = (\<lambda>x. x)\<rparr>"

text \<open>An engine for axis-parallel rectangles, given by their corners counter-clockwise
  from the lower left one; the constructor raises on every other coordinate list. A
  rectangle is the quadruple of its least and greatest coordinates. The answers are those
  of plane geometry on closed rectangles: two rectangles intersect when they have a common
  point and touch when they intersect without a common interior point; the length of their
  intersection is the perimeter of the common rectangle, the length of the common segment,
  or 0 for a single point or no point.\<close>

type_synonym box = "rat \<times> rat \<times> rat \<times> rat"

definition box_of :: "fpoint list \<Rightarrow> box option" where
  "box_of cs =
     (case cs of
        [(Finite a, Finite b), (Finite c, Finite d), (Finite e, Finite f), (Finite g, Finite h)] \<Rightarrow>
          if b = d \<and> c = e \<and> f = h \<and> g = a \<and> a < c \<and> b < f then Some (a, b, c, f) else None
      | _ \<Rightarrow> None)"

definition x_overlap :: "box \<Rightarrow> box \<Rightarrow> rat" where
  "x_overlap p q =
     (case p of (a, b, c, d) \<Rightarrow> case q of (a', b', c', d') \<Rightarrow> min c c' - max a a')"

definition y_overlap :: "box \<Rightarrow> box \<Rightarrow> rat" where
  "y_overlap p q =
     (case p of (a, b, c, d) \<Rightarrow> case q of (a', b', c', d') \<Rightarrow> min d d' - max b b')"

definition box_intersection_length :: "box \<Rightarrow> box \<Rightarrow> rat" where
  "box_intersection_length p q =
     (let w = x_overlap p q; h = y_overlap p q
      in if w < 0 \<or> h < 0 then 0
         else if w = 0 \<or> h = 0 then w + h
         else 2 * (w + h))"

definition rect_engine :: "box geometry" where
  "rect_engine =
     \<lparr>Polygon = box_of,
      simplify = (\<lambda>p t. Some p),
      exterior_coords = (\<lambda>p. case p of (a, b, c, d) \<Rightarrow>
         Some (fin_points [(a, b), (c, b), (c, d), (a, d), (a, b)])),
      poly_centroid = (\<lambda>p. case p of (a, b, c, d) \<Rightarrow>
         Some (Finite ((a + c) / 2), Finite ((b + d) / 2))),
      is_valid = (\<lambda>p. Some True),
      buffer_zero = (\<lambda>p. Some p),
      touches = (\<lambda>p q. Some (0 \<le> x_overlap p q \<and> 0 \<le> y_overlap p q
                            \<and> (x_overlap p q = 0 \<or> y_overlap p q = 0))),
      intersects = (\<lambda>p q. Some (0 \<le> x_overlap p q \<and> 0 \<le> y_overlap p q)),
      intersection_length = (\<lambda>p q. Some (Finite (box_intersection_length p q))),
      nearest_double = (\<lambda>x. x)\<rparr>"

text \<open>Following the specification's words for the adjacency test: the total length of
  the intersection of the two boundaries. The boundaries of two rectangles have a common
  part of positive length only along sides that lie on one line.\<close>

definition boundary_overlap_length :: "box \<Rightarrow> box \<Rightarrow> rat" where
  "boundary_overlap_length p q =
     (case p of (a, b, c, d) \<Rightarrow> case q of (a', b', c', d') \<Rightarrow>
        sum_list (map (\<lambda>yy. if fst yy = snd yy then max 0 (x_overlap p q) else 0)
                    [(b, b'), (b, d'), (d, b'), (d, d')])
        + sum_list (map (\<lambda>xx. if fst xx = snd xx then max 0 (y_overlap p q) else 0)
                      [(a, a'), (a, c'), (c, a'), (c, c')]))"

text \<open>A province record for concrete inputs.\<close>

definition sample_province :: extracted where
  "sample_province =
     \<lparr>original_title = ''Basra'', original_id = ''p0'',
      coordinates = [(0, 0), (10, 0), (10, 10), (0, 10)], centroid = (5, 5), isCoastal = False\<rparr>"

text \<open>A province whose ring is the square of side 10 with the given lower left corner.\<close>

definition square_province :: "string \<Rightarrow> int \<Rightarrow> int \<Rightarrow> string province" where
  "square_province i x y =
     \<lparr>original_title = i, original_id = i,
      coordinates = [(x, y), (x + 10, y), (x + 10, y + 10), (x, y + 10)],
      centroid = (x + 5, y + 5), isCoastal = False, ident = i\<rparr>"

text \<open>Two rings: a square, and a convex pentagon whose vertices all lie far from the
  chords of their neighbours.\<close>

definition square :: "fpoint list" where
  "square = fin_points [(0, 0), (10, 0), (10, 10), (0, 10)]"

definition pentagon :: "fpoint list" where
  "pentagon = fin_points [(0, 0), (10, 0), (12, 8), (5, 14), (-2, 8)]"

section \<open>When the parser returns\<close>

text \<open>The number lists on which a command does not raise: \<open>M\<close> and \<open>m\<close> need two numbers
  and an even count, \<open>L\<close> and \<open>l\<close> an even count; \<open>Z\<close> and \<open>z\<close> read no number.\<close>

definition numbers_ok :: "char \<Rightarrow> nat \<Rightarrow> bool" where
  "numbers_ok cmd n =
     (if cmd = CHR ''M'' \<or> cmd = CHR ''m'' then 2 \<le> n \<and> even n
      else if cmd = CHR ''L'' \<or> cmd = CHR ''l'' then even n
      else True)"

definition command_ok :: "char \<times> string \<Rightarrow> bool" where
  "command_ok ca = (snd ca = [] \<or> numbers_ok (fst ca) (length (find_numbers (snd ca))))"

definition well_formed_path :: "string \<Rightarrow> bool" where
  "well_formed_path s = list_all command_ok (find_commands (sub_ws False (strip s)))"

section \<open>Properties of the parser\<close>

lemma line_abs_result:
  "(even (length ns) \<and> (\<exists>st'. line_abs ns st = Inr st')) \<or> (odd (length ns) \<and> line_abs ns st = Inl IndexError)"
  by (induction ns st rule: line_abs.induct) auto

lemma line_rel_result:
  "(even (length ns) \<and> (\<exists>st'. line_rel ns st = Inr st')) \<or> (odd (length ns) \<and> line_rel ns st = Inl IndexError)"
  by (induction ns st rule: line_rel.induct) auto

lemma run_command_result:
  "(command_ok ca \<and> (\<exists>st'. run_command ca st = Inr st')) \<or> (\<not> command_ok ca \<and> run_command ca st = Inl IndexError)"
proof (cases "snd ca = []")
  case True
  then show ?thesis by (simp add: command_ok_def run_command_def)
next
  case False
  define ns where "ns = map py_float (find_numbers (snd ca))"
  have len: "length (find_numbers (snd ca)) = length ns" by (simp add: ns_def)
  consider (M) "fst ca = CHR ''M''" | (m) "fst ca = CHR ''m''" | (L) "fst ca = CHR ''L''"
    | (l) "fst ca = CHR ''l''"
    | (other) "fst ca \<noteq> CHR ''M''" "fst ca \<noteq> CHR ''m''" "fst ca \<noteq> CHR ''L''" "fst ca \<noteq> CHR ''l''"
    by blast
  then show ?thesis
  proof cases
    case M
    show ?thesis
    proof (cases ns)
      case Nil
      with M False len show ?thesis
        by (simp add: command_ok_def run_command_def numbers_ok_def ns_def [symmetric])
    next
      case (Cons a ns1)
      show ?thesis
      proof (cases ns1)
        case Nil
        with Cons M False len show ?thesis
          by (simp add: command_ok_def run_command_def numbers_ok_def ns_def [symmetric])
      next
        case (Cons b ns2)
        with \<open>ns = a # ns1\<close> M False len line_abs_result [of ns2 "move_abs a b st"] show ?thesis
          by (auto simp add: command_ok_def run_command_def numbers_ok_def ns_def [symmetric])
      qed
    qed
  next
    case m
    show ?thesis
    proof (cases ns)
      case Nil
      with m False len show ?thesis
        by (simp add: command_ok_def run_command_def numbers_ok_def ns_def [symmetric])
    next
      case (Cons a ns1)
      show ?thesis
      proof (cases ns1)
        case Nil
        with Cons m False len show ?thesis
          by (simp add: command_ok_def run_command_def numbers_ok_def ns_def [symmetric])
      next
        case (Cons b ns2)
        with \<open>ns = a # ns1\<close> m False len line_rel_result [of ns2 "move_rel a b st"] show ?thesis
          by (auto simp add: command_ok_def run_command_def numbers_ok_def ns_def [symmetric])
      qed
    qed
  next
    case L
    with False len line_abs_result [of ns st] show ?thesis
      by (auto simp add: command_ok_def run_command_def numbers_ok_def ns_def [symmetric])
  next
    case l
    with False len line_rel_result [of ns st] show ?thesis
      by (auto simp add: command_ok_def run_command_def numbers_ok_def ns_def [symmetric])
  next
    case other
    with False show ?thesis
      by (simp add: command_ok_def run_command_def numbers_ok_def)
  qed
qed

lemma run_commands_result:
  "(list_all command_ok cas \<and> (\<exists>st'. run_commands cas st = Inr st'))
   \<or> (\<not> list_all command_ok cas \<and> run_commands cas st = Inl IndexError)"
proof (induction cas arbitrary: st)
  case Nil
  then show ?case by simp
next
  case (Cons ca cas)
  from run_command_result [of ca st] show ?case
  proof
    assume a: "command_ok ca \<and> (\<exists>st'. run_command ca st = Inr st')"
    then obtain st' where st': "run_command ca st = Inr st'" by blast
    from Cons.IH [of st'] a st' show ?thesis by auto
  next
    assume "\<not> command_ok ca \<and> run_command ca st = Inl IndexError"
    then show ?thesis by simp
  qed
qed

lemma parse_result:
  "(well_formed_path s \<and> (\<exists>pts. parse_svg_path_to_coords s = Inr pts))
   \<or> (\<not> well_formed_path s \<and> parse_svg_path_to_coords s = Inl IndexError)"
  using run_commands_result [of "find_commands (sub_ws False (strip s))"
      "\<lparr>current_x = 0, current_y = 0, acc_coords = []\<rparr>"]
  by (auto simp add: well_formed_path_def parse_svg_path_to_coords_def Let_def)


text \<open>
  Claim C2, as amended. The parser returns a point list exactly when every command that
  carries arguments has a number list it can read (two numbers at least for a move, an
  even count for a move or a line); otherwise it raises IndexError. The caller skips the
  province in both cases that yield no ring: when the parser raises, and when it returns
  fewer than three points.
\<close>

theorem parse_returns_iff_well_formed:
  "(well_formed_path s \<longrightarrow>
      (\<exists>pts. parse_svg_path_to_coords s = Inr pts
         \<and> (length pts < 3 \<longrightarrow> extract_province G tolerance title pid (Some s) = None)))
   \<and> (\<not> well_formed_path s \<longrightarrow>
        parse_svg_path_to_coords s = Inl IndexError
        \<and> extract_province G tolerance title pid (Some s) = None)"
proof (cases "well_formed_path s")
  case True
  with parse_result [of s] obtain pts where pts: "parse_svg_path_to_coords s = Inr pts"
    by blast
  have "length pts < 3 \<longrightarrow> extract_province G tolerance title pid (Some s) = None"
    by (simp add: extract_province_def pts)
  with True pts show ?thesis by simp
next
  case False
  with parse_result [of s] have e: "parse_svg_path_to_coords s = Inl IndexError" by blast
  then have "extract_province G tolerance title pid (Some s) = None"
    by (simp add: extract_province_def)
  with False e show ?thesis by simp
qed

theorem parse_returns_iff_well_formed_witness:
  "well_formed_path ''M 0 0 L 10 0''
   \<and> parse_svg_path_to_coords ''M 0 0 L 10 0'' = Inr [(0, 0), (10, 0)]
   \<and> extract_province failing_engine (Finite 5) ''Basra'' ''p0'' (Some ''M 0 0 L 10 0'') = None
   \<and> \<not> well_formed_path ''M 0 0 L 10''
   \<and> parse_svg_path_to_coords ''M 0 0 L 10'' = Inl IndexError
   \<and> extract_province failing_engine (Finite 5) ''Basra'' ''p0'' (Some ''M 0 0 L 10'') = None"
proof -
  have wf: "well_formed_path ''M 0 0 L 10 0''" by code_simp
  have pts: "parse_svg_path_to_coords ''M 0 0 L 10 0'' = Inr [(0, 0), (10, 0)]" by code_simp
  have nwf: "\<not> well_formed_path ''M 0 0 L 10''" by code_simp
  from parse_returns_iff_well_formed [of "''M 0 0 L 10 0''" failing_engine "Finite 5" "''Basra''" "''p0''"]
    wf pts
  have a: "extract_province failing_engine (Finite 5) ''Basra'' ''p0'' (Some ''M 0 0 L 10 0'') = None"
    by simp
  from parse_returns_iff_well_formed [of "''M 0 0 L 10''" failing_engine "Finite 5" "''Basra''" "''p0''"]
    nwf
  have b: "parse_svg_path_to_coords ''M 0 0 L 10'' = Inl IndexError
      \<and> extract_province failing_engine (Finite 5) ''Basra'' ''p0'' (Some ''M 0 0 L 10'') = None"
    by simp
  from wf pts a nwf b show ?thesis by simp
qed

text \<open>The claim as stated fails: a move command with a single number raises.\<close>

theorem parse_raises_counterexample:
  "parse_svg_path_to_coords ''M 5'' = Inl IndexError"
  by code_simp

subsection \<open>The examples of the specification\<close>

text \<open>
  Claim C9. Parsing \<^verbatim>\<open>M 0 0 L 10 0 L 10 10 L 0 10 Z\<close> yields exactly the four corners
  (0,0), (10,0), (10,10), (0,10), the close command adding no point, and parsing the
  relative path \<^verbatim>\<open>m 5 5 l 5 0 l 0 5\<close> yields exactly (5,5), (10,5), (10,10).
\<close>

theorem parse_spec_examples:
  "parse_svg_path_to_coords ''M 0 0 L 10 0 L 10 10 L 0 10 Z''
     = Inr [(0, 0), (10, 0), (10, 10), (0, 10)]
   \<and> parse_svg_path_to_coords ''m 5 5 l 5 0 l 0 5'' = Inr [(5, 5), (10, 5), (10, 10)]"
  by code_simp

section \<open>Properties of identifier assignment\<close>

lemma ident_with_ident: "ident (with_ident p c) = c"
  by (simp add: with_ident_def)

lemma upt_step: "[idx ..< idx + Suc n] = idx # [Suc idx ..< Suc idx + n]"
  using upt_conv_Cons [of idx "idx + Suc n"] by (simp del: upt_Suc)

lemma assign_from_ok:
  "65 + idx + length ps \<le> 1114112 \<Longrightarrow>
     \<exists>r. assign_from idx ps = Inr r \<and> map ident r = map (\<lambda>i. 65 + i) [idx ..< idx + length ps]"
proof (induction ps arbitrary: idx)
  case Nil
  then show ?case by simp
next
  case (Cons p ps)
  from Cons.prems have "65 + Suc idx + length ps \<le> 1114112" by simp
  from Cons.IH [OF this] obtain r where
    r: "assign_from (Suc idx) ps = Inr r"
       "map ident r = map (\<lambda>i. 65 + i) [Suc idx ..< Suc idx + length ps]" by blast
  from Cons.prems have c: "py_chr (65 + idx) = Inr (65 + idx)" by (simp add: py_chr_def)
  have "[idx ..< idx + length (p # ps)] = idx # [Suc idx ..< Suc idx + length ps]"
    using upt_step [of idx "length ps"] by simp
  with r c show ?case by (simp add: ident_with_ident del: upt_Suc)
qed

lemma assign_from_raises:
  "ps \<noteq> [] \<Longrightarrow> 1114112 < 65 + idx + length ps \<Longrightarrow> assign_from idx ps = Inl ValueError"
proof (induction ps arbitrary: idx)
  case Nil
  then show ?case by simp
next
  case (Cons p ps)
  show ?case
  proof (cases "65 + idx \<le> 1114111")
    case True
    with Cons.prems have "ps \<noteq> []" "1114112 < 65 + Suc idx + length ps" by auto
    from Cons.IH [OF this] True show ?thesis by (simp add: py_chr_def)
  next
    case False
    then show ?thesis by (simp add: py_chr_def)
  qed
qed


text \<open>
  Claim C10, as amended. The province at position \<open>i\<close> (from 0) gets the character with
  code \<open>65 + i\<close>, so identifiers are pairwise distinct; this holds for up to 1114047
  provinces, and with more the call raises ValueError, since \<^verbatim>\<open>chr\<close> has no character above
  code point 1114111. The identifier is an uppercase letter exactly for the first 26
  positions, a lowercase letter exactly for positions 32 to 57, and an ASCII character
  exactly for the first 63 positions.
\<close>

theorem assign_ids:
  "(length ps \<le> 1114047 \<longrightarrow>
      (\<exists>r. assign_province_ids ps = Inr r \<and> length r = length ps \<and> distinct (map ident r)
         \<and> (\<forall>i<length ps.
               ident (r ! i) = 65 + i
               \<and> (is_upper_letter (ident (r ! i)) \<longleftrightarrow> i < 26)
               \<and> (is_lower_letter (ident (r ! i)) \<longleftrightarrow> 32 \<le> i \<and> i < 58)
               \<and> (is_ascii (ident (r ! i)) \<longleftrightarrow> i < 63))))
   \<and> (1114047 < length ps \<longrightarrow> assign_province_ids ps = Inl ValueError)"
proof (intro conjI impI)
  assume len: "length ps \<le> 1114047"
  then have "65 + 0 + length ps \<le> 1114112" by simp
  from assign_from_ok [OF this] obtain r where
    r: "assign_from 0 ps = Inr r" and ids: "map ident r = map (\<lambda>i. 65 + i) [0 ..< length ps]"
    by auto
  from arg_cong [OF ids, of length] have lr: "length r = length ps" by simp
  have d: "distinct (map ident r)"
    unfolding ids by (simp add: distinct_map inj_on_def)
  have nth: "ident (r ! i) = 65 + i" if "i < length ps" for i
  proof -
    from that lr have "ident (r ! i) = map ident r ! i" by simp
    also have "\<dots> = 65 + i" unfolding ids using that by simp
    finally show ?thesis .
  qed
  have "\<forall>i<length ps.
               ident (r ! i) = 65 + i
               \<and> (is_upper_letter (ident (r ! i)) \<longleftrightarrow> i < 26)
               \<and> (is_lower_letter (ident (r ! i)) \<longleftrightarrow> 32 \<le> i \<and> i < 58)
               \<and> (is_ascii (ident (r ! i)) \<longleftrightarrow> i < 63)"
    by (auto simp add: nth is_upper_letter_def is_lower_letter_def is_ascii_def)
  with r lr d show "\<exists>r. assign_province_ids ps = Inr r \<and> length r = length ps \<and> distinct (map ident r)
         \<and> (\<forall>i<length ps.
               ident (r ! i) = 65 + i
               \<and> (is_upper_letter (ident (r ! i)) \<longleftrightarrow> i < 26)
               \<and> (is_lower_letter (ident (r ! i)) \<longleftrightarrow> 32 \<le> i \<and> i < 58)
               \<and> (is_ascii (ident (r ! i)) \<longleftrightarrow> i < 63))"
    unfolding assign_province_ids_def by blast
next
  assume "1114047 < length ps"
  then have "ps \<noteq> []" "1114112 < 65 + 0 + length ps" by auto
  from assign_from_raises [OF this] show "assign_province_ids ps = Inl ValueError"
    by (simp add: assign_province_ids_def)
qed


theorem assign_ids_witness:
  "\<exists>r. assign_province_ids [sample_province, sample_province] = Inr r
       \<and> length r = 2 \<and> distinct (map ident r)
       \<and> ident (r ! 0) = 65 \<and> is_upper_letter (ident (r ! 0)) \<and> is_ascii (ident (r ! 0))"
proof -
  have len: "length [sample_province, sample_province] \<le> 1114047" by simp
  have pos: "0 < length [sample_province, sample_province]" by simp
  from assign_ids [of "[sample_province, sample_province]"] len pos show ?thesis
    by fastforce
qed

text \<open>The claim as stated fails at the 33rd province, whose identifier is the letter
  \<open>a\<close> (code 97), an alphabetic character.\<close>

theorem lowercase_id_counterexample:
  "(case assign_province_ids (replicate 33 sample_province) of
      Inr r \<Rightarrow> ident (r ! 32)
    | Inl e \<Rightarrow> 0) = 97
   \<and> is_lower_letter 97 \<and> is_ascii 97"
proof -
  have "65 + 0 + length (replicate 33 sample_province) \<le> 1114112" by simp
  from assign_from_ok [OF this] obtain r where
    r: "assign_from 0 (replicate 33 sample_province) = Inr r"
    and ids: "map ident r = map (\<lambda>i. 65 + i) [0 ..< 33]" by auto
  from arg_cong [OF ids, of length] have lr: "length r = 33" by simp
  then have "ident (r ! 32) = map ident r ! 32" by simp
  also have "\<dots> = 97" unfolding ids by simp
  finally have "ident (r ! 32) = 97" .
  with r show ?thesis
    by (simp add: assign_province_ids_def is_lower_letter_def is_ascii_def)
qed

section \<open>Properties of rounding\<close>

lemma round_half_even_of_int [simp]: "round_half_even (of_int n) = n"
  by (simp add: round_half_even_def)

lemma round_half_even_numeral [simp]:
  "round_half_even (numeral n) = numeral n" "round_half_even 0 = 0"
  "round_half_even (- numeral n) = - numeral n"
  using round_half_even_of_int [of "numeral n"] round_half_even_of_int [of 0]
    round_half_even_of_int [of "- numeral n"]
  by simp_all









section \<open>Properties of simplification\<close>

lemma simplify_attempt_exterior:
  "simplify_attempt G coords t =
     (case exterior_at G coords t of
        None \<Rightarrow> (if Polygon G coords = None then [] else [t], None)
      | Some ext \<Rightarrow>
          if length ext < 6 then
            ([t, times_half G t], exterior_at G coords (times_half G t))
          else ([t], Some ext))"
  by (simp add: simplify_attempt_def exterior_at_def split: option.splits)

lemma ext_square:
  "exterior_at ring_engine square t = Some (fin_points [(0, 0), (10, 0), (10, 10), (0, 10), (0, 0)])"
  by (simp add: exterior_at_def ring_engine_def close_ring_def square_def fin_points_def)

lemma ext_pentagon:
  "exterior_at ring_engine pentagon t
     = Some (fin_points [(0, 0), (10, 0), (12, 8), (5, 14), (-2, 8), (0, 0)])"
  by (simp add: exterior_at_def ring_engine_def close_ring_def pentagon_def fin_points_def)

lemma round_fin_points:
  "round_points (fin_points ps) = Inr (map (\<lambda>p. (round_half_even (fst p), round_half_even (snd p))) ps)"
  by (induction ps) (simp_all add: fin_points_def round_point_def py_round_def)

text \<open>
  Claim C3, as amended. A ring of fewer than four points is returned rounded, with no call
  of the simplifier; the rounding raises when a coordinate is not finite. For a ring of at
  least four points, simplification is re-run exactly once, at the tolerance times 0.5,
  when the exterior coordinate sequence of the first result, closing coordinate included,
  has fewer than six entries (fewer than five vertices); the exterior of the re-run is
  accepted whatever its length. With six entries or more there is no second call. The
  accepted exterior is returned without its last coordinate and rounded; when the re-run
  raises, or that rounding raises, the rounded input is returned instead.
\<close>

theorem retry_gate:
  "(length coords < 4 \<longrightarrow>
      simplify_calls G coords t = [] \<and> simplify_coords G coords t = round_points coords)
   \<and> (4 \<le> length coords \<longrightarrow> exterior_at G coords t = Some ext \<longrightarrow>
        (length ext < 6 \<longrightarrow>
           simplify_calls G coords t = [t, times_half G t]
           \<and> simplify_coords G coords t =
               (case exterior_at G coords (times_half G t) of
                  Some ext' \<Rightarrow>
                    (case round_points (butlast ext') of
                       Inr r \<Rightarrow> Inr r
                     | Inl e \<Rightarrow> round_points coords)
                | None \<Rightarrow> round_points coords))
        \<and> (6 \<le> length ext \<longrightarrow>
             simplify_calls G coords t = [t]
             \<and> simplify_coords G coords t =
                 (case round_points (butlast ext) of
                    Inr r \<Rightarrow> Inr r
                  | Inl e \<Rightarrow> round_points coords)))"
  by (simp add: simplify_calls_def simplify_coords_def simplify_attempt_exterior)

theorem retry_gate_witness:
  "simplify_calls ring_engine square (Finite 5) = [Finite 5, Finite (5 / 2)]
   \<and> simplify_coords ring_engine square (Finite 5) = Inr [(0, 0), (10, 0), (10, 10), (0, 10)]
   \<and> simplify_calls ring_engine pentagon (Finite 1) = [Finite 1]
   \<and> simplify_coords ring_engine pentagon (Finite 1)
       = Inr [(0, 0), (10, 0), (12, 8), (5, 14), (-2, 8)]"
proof -
  have l4: "4 \<le> length square" "4 \<le> length pentagon"
    by (simp_all add: square_def pentagon_def fin_points_def)
  have h: "times_half ring_engine (Finite 5) = Finite (5 / 2)"
    by (simp add: times_half_def ring_engine_def)
  have b1: "butlast (fin_points [(0, 0), (10, 0), (10, 10), (0, 10), (0, 0)])
      = fin_points [(0, 0), (10, 0), (10, 10), (0, 10)]"
    by (simp add: fin_points_def)
  have b2: "butlast (fin_points [(0, 0), (10, 0), (12, 8), (5, 14), (-2, 8), (0, 0)])
      = fin_points [(0, 0), (10, 0), (12, 8), (5, 14), (-2, 8)]"
    by (simp add: fin_points_def)
  have l5: "length (fin_points [(0, 0), (10, 0), (10, 10), (0, 10), (0, 0)]) = 5"
    "length (fin_points [(0, 0), (10, 0), (12, 8), (5, 14), (-2, 8), (0, 0)]) = 6"
    by (simp_all add: fin_points_def)
  from retry_gate [of square ring_engine "Finite 5"
      "fin_points [(0, 0), (10, 0), (10, 10), (0, 10), (0, 0)]"]
    l4 l5 ext_square [of "Finite 5"] ext_square [of "Finite (5 / 2)"] h
  have a: "simplify_calls ring_engine square (Finite 5) = [Finite 5, Finite (5 / 2)]
   \<and> simplify_coords ring_engine square (Finite 5) = Inr [(0, 0), (10, 0), (10, 10), (0, 10)]"
    by (simp add: b1 round_fin_points)
  from retry_gate [of pentagon ring_engine "Finite 1"
      "fin_points [(0, 0), (10, 0), (12, 8), (5, 14), (-2, 8), (0, 0)]"]
    l4 l5 ext_pentagon [of "Finite 1"]
  have b: "simplify_calls ring_engine pentagon (Finite 1) = [Finite 1]
   \<and> simplify_coords ring_engine pentagon (Finite 1)
       = Inr [(0, 0), (10, 0), (12, 8), (5, 14), (-2, 8)]"
    by (simp add: b2 round_fin_points)
  from a b show ?thesis by simp
qed

text \<open>The claim as stated fails on a ring that keeps five vertices: five is fewer than
  six, and the simplifier is called once only.\<close>

theorem five_vertices_no_retry_counterexample:
  "exterior_at ring_engine pentagon (Finite 1)
     = Some (fin_points [(0, 0), (10, 0), (12, 8), (5, 14), (-2, 8), (0, 0)])
   \<and> length (butlast (fin_points [(0, 0), (10, 0), (12, 8), (5, 14), (-2, 8), (0, 0)])) < 6
   \<and> simplify_calls ring_engine pentagon (Finite 1) = [Finite 1]"
proof -
  have "\<not> length pentagon < 4" by (simp add: pentagon_def fin_points_def)
  then have "simplify_calls ring_engine pentagon (Finite 1) = [Finite 1]"
    by (simp add: simplify_calls_def simplify_attempt_exterior ext_pentagon fin_points_def)
  then show ?thesis by (simp add: ext_pentagon fin_points_def)
qed









section \<open>Properties of the centroid\<close>




section \<open>Properties of neighbour detection\<close>

lemma register_pair_dom:
  "id1 \<in> dom nb \<Longrightarrow> id2 \<in> dom nb \<Longrightarrow> dom (register_pair id1 id2 nb) = dom nb"
  by (auto simp add: register_pair_def Let_def split: option.splits if_splits)

lemma register_pair_mem:
  "id1 \<in> dom nb \<Longrightarrow> id2 \<in> dom nb \<Longrightarrow>
     x \<in> set (neighbors_of (register_pair id1 id2 nb) y) \<longleftrightarrow>
       x \<in> set (neighbors_of nb y) \<or> (y = id1 \<and> x = id2) \<or> (y = id2 \<and> x = id1)"
  by (auto simp add: register_pair_def neighbors_of_def Let_def split: option.splits if_splits)

lemma inner_loop_dom:
  "id1 \<in> dom nb \<Longrightarrow> fst ` set rest \<subseteq> dom nb \<Longrightarrow> dom (inner_loop G id1 p1 rest nb) = dom nb"
proof (induction rest arbitrary: nb)
  case Nil
  then show ?case by simp
next
  case (Cons ip2 rest)
  let ?nb = "if share_border G p1 (snd ip2) then register_pair id1 (fst ip2) nb else nb"
  from Cons.prems have d: "dom ?nb = dom nb" by (simp add: register_pair_dom)
  with Cons.prems have "id1 \<in> dom ?nb" "fst ` set rest \<subseteq> dom ?nb" by auto
  from Cons.IH [OF this] d show ?case by simp
qed

lemma inner_loop_mem:
  "id1 \<in> dom nb \<Longrightarrow> fst ` set rest \<subseteq> dom nb \<Longrightarrow>
     x \<in> set (neighbors_of (inner_loop G id1 p1 rest nb) y) \<longleftrightarrow>
       x \<in> set (neighbors_of nb y)
       \<or> (\<exists>ip2\<in>set rest. share_border G p1 (snd ip2)
             \<and> ((y = id1 \<and> x = fst ip2) \<or> (y = fst ip2 \<and> x = id1)))"
proof (induction rest arbitrary: nb)
  case Nil
  then show ?case by simp
next
  case (Cons ip2 rest)
  let ?nb = "if share_border G p1 (snd ip2) then register_pair id1 (fst ip2) nb else nb"
  from Cons.prems have d: "dom ?nb = dom nb" by (simp add: register_pair_dom)
  with Cons.prems have p: "id1 \<in> dom ?nb" "fst ` set rest \<subseteq> dom ?nb" by auto
  from Cons.prems have m: "x \<in> set (neighbors_of ?nb y) \<longleftrightarrow>
     x \<in> set (neighbors_of nb y)
     \<or> (share_border G p1 (snd ip2) \<and> ((y = id1 \<and> x = fst ip2) \<or> (y = fst ip2 \<and> x = id1)))"
    by (simp add: register_pair_mem)
  from Cons.IH [OF p] m show ?case by auto
qed

lemma outer_loop_mem:
  "fst ` set polys \<subseteq> dom nb \<Longrightarrow>
     x \<in> set (neighbors_of (outer_loop G polys nb) y) \<longleftrightarrow>
       x \<in> set (neighbors_of nb y)
       \<or> (y, x) \<in> set (registered_pairs G polys) \<or> (x, y) \<in> set (registered_pairs G polys)"
proof (induction polys arbitrary: nb)
  case Nil
  then show ?case by simp
next
  case (Cons ip1 rest)
  let ?nb = "inner_loop G (fst ip1) (snd ip1) rest nb"
  from Cons.prems have a: "fst ip1 \<in> dom nb" "fst ` set rest \<subseteq> dom nb" by auto
  from inner_loop_dom [OF a] a have d: "fst ` set rest \<subseteq> dom ?nb" by simp
  from Cons.IH [OF d] inner_loop_mem [OF a, of x G "snd ip1" y] show ?case by auto
qed

lemma build_polygons_keys:
  "fst ` set (build_polygons G ps acc) \<subseteq> fst ` set acc \<union> ident ` set ps"
proof (induction ps arbitrary: acc)
  case Nil
  then show ?case by simp
next
  case (Cons p ps)
  have u: "fst ` set (AList.update (ident p) v acc) = insert (ident p) (fst ` set acc)" for v
    by (simp add: dom_update)
  from Cons.IH [of acc] Cons.IH [of "AList.update (ident p) v acc" for v] u show ?case
    by (auto split: option.splits)
qed

lemma build_polygons_distinct:
  "distinct (map fst acc) \<Longrightarrow> distinct (map fst (build_polygons G ps acc))"
  by (induction ps arbitrary: acc) (auto simp add: distinct_update split: option.splits)

lemma init_neighbors:
  "dom (map_of (map (\<lambda>p. (ident p, [])) ps)) = ident ` set ps"
  "neighbors_of (map_of (map (\<lambda>p. (ident p, [])) ps)) y = []"
proof -
  show "dom (map_of (map (\<lambda>p. (ident p, [])) ps)) = ident ` set ps"
    by (simp add: dom_map_of_conv_image_fst image_image)
  show "neighbors_of (map_of (map (\<lambda>p. (ident p, [])) ps)) y = []"
    by (induction ps) (simp_all add: neighbors_of_def)
qed

lemma detect_neighbors_mem:
  "x \<in> set (neighbors_of (detect_neighbors G ps) y) \<longleftrightarrow>
     (y, x) \<in> set (registered_pairs G (build_polygons G ps []))
     \<or> (x, y) \<in> set (registered_pairs G (build_polygons G ps []))"
proof -
  have "fst ` set (build_polygons G ps []) \<subseteq> dom (map_of (map (\<lambda>p. (ident p, [])) ps))"
    using build_polygons_keys [of G ps "[]"] by (simp add: init_neighbors)
  from outer_loop_mem [OF this] show ?thesis
    by (simp add: detect_neighbors_def init_neighbors)
qed

lemma registered_pairs_keys:
  "(a, b) \<in> set (registered_pairs G l) \<Longrightarrow> a \<in> fst ` set l \<and> b \<in> fst ` set l"
  by (induction l) auto

lemma registered_pairs_irrefl:
  "distinct (map fst l) \<Longrightarrow> (a, a) \<notin> set (registered_pairs G l)"
proof (induction l)
  case Nil
  then show ?case by simp
next
  case (Cons ip1 rest)
  then show ?case by (auto dest: registered_pairs_keys)
qed

lemma pairs_from_key:
  "distinct (map fst (xs @ (id1, p1) # rest)) \<Longrightarrow>
     (id1, b) \<in> set (registered_pairs G (xs @ (id1, p1) # rest)) \<longleftrightarrow>
       (\<exists>ip2\<in>set rest. b = fst ip2 \<and> share_border G p1 (snd ip2))"
proof (induction xs)
  case Nil
  then show ?case by (auto dest: registered_pairs_keys)
next
  case (Cons x xs)
  then show ?case by auto
qed

lemma pairs_to_key:
  "distinct (map fst (xs @ (id1, p1) # rest)) \<Longrightarrow>
     (a, id1) \<in> set (registered_pairs G (xs @ (id1, p1) # rest)) \<Longrightarrow> a \<in> fst ` set xs"
proof (induction xs)
  case Nil
  then show ?case by (auto dest: registered_pairs_keys)
next
  case (Cons x xs)
  then show ?case by auto
qed

lemma share_border_iff:
  "share_border G poly1 poly2 \<longleftrightarrow>
     (touches G poly1 poly2 = Some True
        \<or> (touches G poly1 poly2 = Some False \<and> intersects G poly1 poly2 = Some True))
     \<and> (\<exists>len. intersection_length G poly1 poly2 = Some len \<and> exceeds_one len)"
  by (auto simp add: share_border_def split: option.splits)

lemma polygons_overlapping:
  "build_polygons rect_engine [square_province ''A'' 0 0, square_province ''B'' 5 5] []
     = [(''A'', (0, 0, 10, 10)), (''B'', (5, 5, 15, 15))]"
  by (simp add: rect_engine_def square_province_def to_points_def box_of_def)

lemma polygons_edge:
  "build_polygons rect_engine [square_province ''A'' 0 0, square_province ''B'' 10 0] []
     = [(''A'', (0, 0, 10, 10)), (''B'', (10, 0, 20, 10))]"
  by (simp add: rect_engine_def square_province_def to_points_def box_of_def)

lemma polygons_corner:
  "build_polygons rect_engine [square_province ''A'' 0 0, square_province ''B'' 10 10] []
     = [(''A'', (0, 0, 10, 10)), (''B'', (10, 10, 20, 20))]"
  by (simp add: rect_engine_def square_province_def to_points_def box_of_def)

lemma share_overlapping: "share_border rect_engine (0, 0, 10, 10) (5, 5, 15, 15)"
  by (simp add: share_border_def rect_engine_def x_overlap_def y_overlap_def box_intersection_length_def
      exceeds_one_def)

lemma share_edge: "share_border rect_engine (0, 0, 10, 10) (10, 0, 20, 10)"
  by (simp add: share_border_def rect_engine_def x_overlap_def y_overlap_def box_intersection_length_def
      exceeds_one_def)

lemma share_corner: "\<not> share_border rect_engine (0, 0, 10, 10) (10, 10, 20, 20)"
  by (simp add: share_border_def rect_engine_def x_overlap_def y_overlap_def box_intersection_length_def
      exceeds_one_def)

text \<open>
  Claim C4. The adjacency graph returned by neighbour detection is symmetric and
  irreflexive: \<open>b\<close> is among the neighbours of \<open>a\<close> exactly when \<open>a\<close> is among the neighbours of
  \<open>b\<close>, and no identifier is among its own neighbours. This holds for every engine, also when
  calls raise and when provinces share an identifier.
\<close>

theorem adjacency_symmetric_irreflexive:
  "(b \<in> set (neighbors_of (detect_neighbors G provinces) a)
      \<longleftrightarrow> a \<in> set (neighbors_of (detect_neighbors G provinces) b))
   \<and> a \<notin> set (neighbors_of (detect_neighbors G provinces) a)"
proof -
  have "distinct (map fst (build_polygons G provinces []))"
    by (rule build_polygons_distinct) simp
  from registered_pairs_irrefl [OF this] show ?thesis
    by (auto simp add: detect_neighbors_mem)
qed

theorem adjacency_symmetric_irreflexive_witness:
  "''B'' \<in> set (neighbors_of
      (detect_neighbors rect_engine [square_province ''A'' 0 0, square_province ''B'' 10 0]) ''A'')
   \<and> ''A'' \<in> set (neighbors_of
      (detect_neighbors rect_engine [square_province ''A'' 0 0, square_province ''B'' 10 0]) ''B'')
   \<and> ''A'' \<notin> set (neighbors_of
      (detect_neighbors rect_engine [square_province ''A'' 0 0, square_province ''B'' 10 0]) ''A'')"
proof -
  have "''B'' \<in> set (neighbors_of
      (detect_neighbors rect_engine [square_province ''A'' 0 0, square_province ''B'' 10 0]) ''A'')"
    unfolding detect_neighbors_mem polygons_edge by (simp add: share_edge)
  with adjacency_symmetric_irreflexive [of "''B''" rect_engine
      "[square_province ''A'' 0 0, square_province ''B'' 10 0]" "''A''"]
  show ?thesis by simp
qed

text \<open>
  Claim C1, as amended. For two keys of the dictionary of polygons, \<open>id1\<close> before \<open>id2\<close>, the
  pair is registered exactly when \<open>touches\<close> returns true, or returns false and \<open>intersects\<close>
  returns true, and the length of the intersection of the two polygons is returned and is
  greater than 1. Hence a call that raises leaves the pair unregistered, and \<open>intersects\<close> is
  not consulted when \<open>touches\<close> holds. The intersection is the common border when the
  polygons only touch, and the overlap region, measured by its outline, when they overlap.
  A pair whose intersection has length at most 1, a single point for instance, is not
  registered.
\<close>

theorem adjacency_iff_share_border:
  assumes "build_polygons G provinces [] = xs @ (id1, poly1) # ys @ (id2, poly2) # zs"
  shows "(id2 \<in> set (neighbors_of (detect_neighbors G provinces) id1) \<longleftrightarrow>
            (touches G poly1 poly2 = Some True
               \<or> (touches G poly1 poly2 = Some False \<and> intersects G poly1 poly2 = Some True))
            \<and> (\<exists>len. intersection_length G poly1 poly2 = Some len \<and> exceeds_one len))
     \<and> (\<forall>v. intersection_length G poly1 poly2 = Some (Finite v) \<longrightarrow> v \<le> 1 \<longrightarrow>
            id2 \<notin> set (neighbors_of (detect_neighbors G provinces) id1))"
proof -
  let ?l = "xs @ (id1, poly1) # ys @ (id2, poly2) # zs"
  have d: "distinct (map fst ?l)"
    using build_polygons_distinct [of "[]" G provinces] assms by simp
  have "(id1, id2) \<in> set (registered_pairs G ?l) \<longleftrightarrow>
      (\<exists>ip2\<in>set (ys @ (id2, poly2) # zs). id2 = fst ip2 \<and> share_border G poly1 (snd ip2))"
    by (rule pairs_from_key [OF d])
  also have "\<dots> \<longleftrightarrow> share_border G poly1 poly2"
    using d by (auto simp add: image_iff)
  finally have f: "(id1, id2) \<in> set (registered_pairs G ?l) \<longleftrightarrow> share_border G poly1 poly2" .
  have b: "(id2, id1) \<notin> set (registered_pairs G ?l)"
  proof
    assume "(id2, id1) \<in> set (registered_pairs G ?l)"
    from pairs_to_key [OF d this] d show False by auto
  qed
  from f b have r: "id2 \<in> set (neighbors_of (detect_neighbors G provinces) id1)
      \<longleftrightarrow> share_border G poly1 poly2"
    by (simp add: detect_neighbors_mem assms)
  have s: "\<forall>v. intersection_length G poly1 poly2 = Some (Finite v) \<longrightarrow> v \<le> 1 \<longrightarrow>
            \<not> share_border G poly1 poly2"
    by (auto simp add: share_border_iff exceeds_one_def)
  from r s show ?thesis unfolding share_border_iff by blast
qed

theorem adjacency_iff_share_border_witness:
  "share_border rect_engine (0, 0, 10, 10) (10, 0, 20, 10)
   \<and> ''B'' \<in> set (neighbors_of
        (detect_neighbors rect_engine [square_province ''A'' 0 0, square_province ''B'' 10 0]) ''A'')
   \<and> intersection_length rect_engine (0, 0, 10, 10) (10, 10, 20, 20) = Some (Finite 0)
   \<and> ''B'' \<notin> set (neighbors_of
        (detect_neighbors rect_engine [square_province ''A'' 0 0, square_province ''B'' 10 10]) ''A'')"
proof -
  have e: "build_polygons rect_engine [square_province ''A'' 0 0, square_province ''B'' 10 0] []
      = [] @ (''A'', (0, 0, 10, 10)) # [] @ (''B'', (10, 0, 20, 10)) # []"
    using polygons_edge by simp
  have c: "build_polygons rect_engine [square_province ''A'' 0 0, square_province ''B'' 10 10] []
      = [] @ (''A'', (0, 0, 10, 10)) # [] @ (''B'', (10, 10, 20, 20)) # []"
    using polygons_corner by simp
  have l: "intersection_length rect_engine (0, 0, 10, 10) (10, 10, 20, 20) = Some (Finite 0)"
    by (simp add: rect_engine_def x_overlap_def y_overlap_def box_intersection_length_def)
  from adjacency_iff_share_border [OF e] share_edge [unfolded share_border_iff]
  have a: "''B'' \<in> set (neighbors_of
        (detect_neighbors rect_engine [square_province ''A'' 0 0, square_province ''B'' 10 0]) ''A'')"
    by blast
  have z: "(0 :: rat) \<le> 1" by simp
  from adjacency_iff_share_border [OF c] l z
  have b: "''B'' \<notin> set (neighbors_of
        (detect_neighbors rect_engine [square_province ''A'' 0 0, square_province ''B'' 10 10]) ''A'')"
    by blast
  from share_edge a l b show ?thesis by simp
qed

text \<open>The claim as stated fails on two overlapping squares: their boundaries cross in
  two points, so the intersection of the boundaries has length 0, and the pair is
  registered, the outline of the overlap region having length 20.\<close>

theorem overlap_registered_counterexample:
  "build_polygons rect_engine [square_province ''A'' 0 0, square_province ''B'' 5 5] []
     = [(''A'', (0, 0, 10, 10)), (''B'', (5, 5, 15, 15))]
   \<and> boundary_overlap_length (0, 0, 10, 10) (5, 5, 15, 15) = 0
   \<and> ''B'' \<in> set (neighbors_of
        (detect_neighbors rect_engine [square_province ''A'' 0 0, square_province ''B'' 5 5]) ''A'')"
proof -
  have "boundary_overlap_length (0, 0, 10, 10) (5, 5, 15, 15) = 0"
    by (simp add: boundary_overlap_length_def)
  moreover have "''B'' \<in> set (neighbors_of
        (detect_neighbors rect_engine [square_province ''A'' 0 0, square_province ''B'' 5 5]) ''A'')"
    unfolding detect_neighbors_mem polygons_overlapping by (simp add: share_overlapping)
  ultimately show ?thesis using polygons_overlapping by simp
qed


end
